theory Spec2Isabelle
  imports Main "HOL-Library.Sublist" "HOL-Library.Word"
begin

section \<open>Python values and exceptions\<close>

text \<open>
  The handlers of \<^verbatim>\<open>ankisyncd/sync_app.py\<close> receive their arguments from a JSON payload, so an
  argument is any value \<^verbatim>\<open>json.loads\<close> can produce; the dispatcher additionally wraps raw bytes.
  Python strings are modelled as \<open>string\<close> (code points below 256), bytes as lists of octets.
  Floating point numbers are not part of the model.
\<close>

type_synonym bytes = "8 word list"

datatype pyval =
    PNone
  | PBool bool
  | PInt int
  | PStr string
  | PBytes bytes
  | PList "pyval list"
  | PDict "(string \<times> pyval) list"

text \<open>
  Exceptions the modelled code can raise. \<open>UnicodeDecodeError\<close> and \<open>JSONDecodeError\<close> are
  subclasses of \<open>ValueError\<close> in Python, which matters for the \<^verbatim>\<open>except\<close> clause of
  \<^verbatim>\<open>_decode_data\<close>. \<open>PyException\<close> is a plain \<^verbatim>\<open>Exception(msg)\<close>; \<open>OtherError\<close> stands for
  an exception of a collaborator that is none of the others. The last three are the
  \<^verbatim>\<open>webob.exc\<close> responses the dispatcher raises (\<^verbatim>\<open>HTTPForbidden\<close> with its body, if any).
\<close>

datatype py_error =
    ValueError
  | UnicodeDecodeError
  | JSONDecodeError
  | TypeError
  | KeyError
  | IndexError
  | AttributeError
  | AssertionError
  | OSError
  | PyException string
  | OtherError string
  | HTTPNotFound
  | HTTPForbidden "string option"
  | HTTPInternalServerError


text \<open>Truth value of a Python object (\<^verbatim>\<open>if x\<close>, \<^verbatim>\<open>not x\<close>).\<close>

fun py_truthy :: "pyval \<Rightarrow> bool" where
  "py_truthy PNone = False"
| "py_truthy (PBool b) = b"
| "py_truthy (PInt i) = (i \<noteq> 0)"
| "py_truthy (PStr s) = (s \<noteq> [])"
| "py_truthy (PBytes b) = (b \<noteq> [])"
| "py_truthy (PList xs) = (xs \<noteq> [])"
| "py_truthy (PDict kvs) = (kvs \<noteq> [])"



subsection \<open>Strings\<close>

text \<open>
  The whitespace \<^verbatim>\<open>int(s)\<close> ignores around the number. CPython keeps a character below 127 as
  it is and then skips \<^verbatim>\<open>\t\<close>, \<^verbatim>\<open>\n\<close>, \<^verbatim>\<open>\v\<close>, \<^verbatim>\<open>\f\<close>, \<^verbatim>\<open>\r\<close> and the space; a
  character from 127 on counts when Unicode calls it a space, which below 256 are
  \<^verbatim>\<open>\x85\<close> and \<^verbatim>\<open>\xa0\<close>. The separators \<^verbatim>\<open>\x1c\<close> to \<^verbatim>\<open>\x1f\<close> are not skipped.
\<close>

definition is_space :: "char \<Rightarrow> bool" where
  "is_space c = ((of_char c :: nat) \<in> {9, 10, 11, 12, 13, 32, 133, 160})"

definition is_digit :: "char \<Rightarrow> bool" where
  "is_digit c = (48 \<le> (of_char c :: nat) \<and> (of_char c :: nat) \<le> 57)"

definition digit_val :: "char \<Rightarrow> int" where
  "digit_val c = int (of_char c) - 48"

text \<open>
  The digits of \<^verbatim>\<open>int(s)\<close> after the first one: digits, with single underscores allowed
  between two digits.
\<close>

fun int_digits :: "int \<Rightarrow> string \<Rightarrow> int option" where
  "int_digits acc [] = Some acc"
| "int_digits acc (c # cs) =
     (if is_digit c then int_digits (acc * 10 + digit_val c) cs
      else if c = CHR ''_'' then
        (case cs of
           [] \<Rightarrow> None
         | d # ds \<Rightarrow> if is_digit d then int_digits (acc * 10 + digit_val d) ds else None)
      else None)"

definition int_unsigned :: "string \<Rightarrow> int option" where
  "int_unsigned s =
     (case s of
        [] \<Rightarrow> None
      | c # cs \<Rightarrow> if is_digit c then int_digits (digit_val c) cs else None)"

definition py_strip :: "string \<Rightarrow> string" where
  "py_strip s = rev (dropWhile is_space (rev (dropWhile is_space s)))"

text \<open>
  \<^verbatim>\<open>int(s)\<close> for a string: surrounding whitespace is ignored, one sign is allowed, then
  decimal digits. Anything else raises \<^verbatim>\<open>ValueError\<close>.
\<close>

definition py_int :: "string \<Rightarrow> py_error + int" where
  "py_int s =
     (case py_strip s of
        [] \<Rightarrow> Inl ValueError
      | c # cs \<Rightarrow>
          (if c = CHR ''-'' then
             (case int_unsigned cs of None \<Rightarrow> Inl ValueError | Some n \<Rightarrow> Inr (- n))
           else if c = CHR ''+'' then
             (case int_unsigned cs of None \<Rightarrow> Inl ValueError | Some n \<Rightarrow> Inr n)
           else
             (case int_unsigned (c # cs) of None \<Rightarrow> Inl ValueError | Some n \<Rightarrow> Inr n)))"

text \<open>\<^verbatim>\<open>needle in haystack\<close> for strings.\<close>

fun str_contains :: "string \<Rightarrow> string \<Rightarrow> bool" where
  "str_contains needle [] = (needle = [])"
| "str_contains needle (c # cs) = (prefix needle (c # cs) \<or> str_contains needle cs)"

text \<open>
  \<^verbatim>\<open>s.split(sep)\<close> for a separator \<open>p # ps\<close>: cut at the leftmost occurrences, left to
  right. \<open>cur\<close> is the piece being read. (Python raises on an empty separator; the code only
  splits at \<^verbatim>\<open>','\<close>, \<^verbatim>\<open>'.'\<close>, \<^verbatim>\<open>'alpha'\<close>, \<^verbatim>\<open>'beta'\<close> and \<^verbatim>\<open>'rc'\<close>.)
\<close>

function split_from :: "char \<Rightarrow> string \<Rightarrow> string \<Rightarrow> string \<Rightarrow> string list" where
  "split_from p ps cur [] = [cur]"
| "split_from p ps cur (c # cs) =
     (if c = p \<and> prefix ps cs then cur # split_from p ps [] (drop (length ps) cs)
      else split_from p ps (cur @ [c]) cs)"
  by pat_completeness auto
termination
  by (relation "measure (\<lambda>(p, ps, cur, s). length s)") auto

definition py_split :: "string \<Rightarrow> string \<Rightarrow> py_error + string list" where
  "py_split s sep = (case sep of [] \<Rightarrow> Inl ValueError | p # ps \<Rightarrow> Inr (split_from p ps [] s))"

text \<open>
  \<^verbatim>\<open>re.sub(r'[^0-9.].*$', '', s)\<close>. A match starts at a character outside \<^verbatim>\<open>[0-9.]\<close>;
  \<^verbatim>\<open>.*\<close> does not cross a newline and \<^verbatim>\<open>$\<close> matches at the end or before a final newline,
  so the match exists iff no newline stands between that character and the last character of
  the string. Everything from the leftmost match on is removed (a final newline left over by
  the first match is itself a match).
\<close>

definition version_char :: "char \<Rightarrow> bool" where
  "version_char c = (is_digit c \<or> c = CHR ''.'')"

fun re_sub_suffix :: "string \<Rightarrow> string" where
  "re_sub_suffix [] = []"
| "re_sub_suffix (c # cs) =
     (if \<not> version_char c \<and> CHR 0x0A \<notin> set (butlast cs) then []
      else c # re_sub_suffix cs)"

text \<open>\<^verbatim>\<open>[int(x) for x in xs]\<close>: the first failing conversion raises.\<close>

fun ints_of :: "string list \<Rightarrow> py_error + int list" where
  "ints_of [] = Inr []"
| "ints_of (x # xs) =
     (case py_int x of
        Inl e \<Rightarrow> Inl e
      | Inr n \<Rightarrow> (case ints_of xs of Inl e \<Rightarrow> Inl e | Inr ns \<Rightarrow> Inr (n # ns)))"

text \<open>Python's \<^verbatim>\<open><\<close> on lists of integers: lexicographic, a proper prefix is smaller.\<close>

fun py_list_lt :: "int list \<Rightarrow> int list \<Rightarrow> bool" where
  "py_list_lt [] [] = False"
| "py_list_lt [] (y # ys) = True"
| "py_list_lt (x # xs) [] = False"
| "py_list_lt (x # xs) (y # ys) = (if x = y then py_list_lt xs ys else x < y)"

text \<open>\<^verbatim>\<open>str(n)\<close> for an integer, as \<^verbatim>\<open>str.format\<close> prints it.\<close>

function show_nat :: "nat \<Rightarrow> string" where
  "show_nat n =
     (if n < 10 then [char_of (48 + n)]
      else show_nat (n div 10) @ [char_of (48 + n mod 10)])"
  by pat_completeness auto
termination
  by (relation "measure id") auto

definition show_int :: "int \<Rightarrow> string" where
  "show_int i = (if i < 0 then CHR ''-'' # show_nat (nat (- i)) else show_nat (nat i))"


section \<open>Constants of the Anki library\<close>

text \<open>
  \<^verbatim>\<open>anki.consts\<close> belongs to the Anki library, which the server imports; its values are
  parameters of the model.
\<close>

record anki_consts =
  SYNC_VER :: int
  SYNC_ZIP_SIZE :: int
  SYNC_ZIP_COUNT :: int
  REM_CARD :: int
  REM_NOTE :: int

section \<open>The collection\<close>

text \<open>
  The parts of an Anki collection object the handlers read and write: the \<^verbatim>\<open>graves\<close> table
  (rows in table order), the counters, and the media manager \<^verbatim>\<open>col.media\<close> with its
  \<^verbatim>\<open>media\<close> table (primary key \<^verbatim>\<open>fname\<close>, rows in table order), its \<^verbatim>\<open>lastUsn\<close> and the
  files of the media directory.
\<close>

record grave =
  g_usn :: int
  g_oid :: int
  g_type :: int

record media_row =
  fname :: string
  csum :: "string option"
  mtime :: int
  dirty :: int

record media_manager =
  db_connected :: bool
  media_rows :: "media_row list"
  media_lastUsn :: int
  media_dir :: "string \<rightharpoonup> bytes"

record collection =
  scm :: int
  col_mod :: int
  col_usn :: int
  schedVer :: int
  graves :: "grave list"
  media :: media_manager

section \<open>SyncCollectionHandler\<close>

record sync_collection_handler =
  col :: collection
  maxUsn :: "int option"
  minUsn :: "int option"
  lnewer :: "bool option"

definition SyncCollectionHandler_operations :: "string list" where
  "SyncCollectionHandler_operations =
     [''meta'', ''applyChanges'', ''start'', ''applyGraves'', ''chunk'', ''applyChunk'',
      ''sanityCheck2'', ''finish'']"

subsection \<open>\<^verbatim>\<open>_old_client\<close>\<close>

text \<open>
  One round of the loop \<^verbatim>\<open>for name in note.keys()\<close>: when \<open>name\<close> occurs in the version,
  the version is cut at it and the last piece is converted with \<^verbatim>\<open>int\<close>.
\<close>

definition note_step ::
  "string \<Rightarrow> string \<times> (string \<Rightarrow> int) \<Rightarrow> py_error + string \<times> (string \<Rightarrow> int)" where
  "note_step name st =
     (case st of (version, note) \<Rightarrow>
        if str_contains name version then
          (case py_split version name of
             Inl e \<Rightarrow> Inl e
           | Inr vs \<Rightarrow>
               (case vs of
                  [] \<Rightarrow> Inl IndexError
                | v0 # _ \<Rightarrow>
                    (case py_int (last vs) of
                       Inl e \<Rightarrow> Inl e
                     | Inr n \<Rightarrow> Inr (v0, note(name := n)))))
        else Inr (version, note))"

fun note_loop ::
  "string list \<Rightarrow> string \<times> (string \<Rightarrow> int) \<Rightarrow> py_error + string \<times> (string \<Rightarrow> int)" where
  "note_loop [] st = Inr st"
| "note_loop (name # names) st =
     (case note_step name st of Inl e \<Rightarrow> Inl e | Inr st' \<Rightarrow> note_loop names st')"

text \<open>
  The decision once client and version are parsed. The result \<open>None\<close> is Python's
  \<^verbatim>\<open>None\<close>: for \<^verbatim>\<open>ankidroid\<close> at version \<^verbatim>\<open>[2, 3]\<close> with no alpha number the function
  reaches its end without a \<^verbatim>\<open>return\<close>.
\<close>

definition old_client_decide :: "string \<Rightarrow> int list \<Rightarrow> (string \<Rightarrow> int) \<Rightarrow> bool option" where
  "old_client_decide client version_int note =
     (if client = ''ankidesktop'' then Some (py_list_lt version_int [2, 0, 27])
      else if client = ''ankidroid'' then
        (if version_int = [2, 3] then
           (if note ''alpha'' \<noteq> 0 then Some (note ''alpha'' < 4) else None)
         else Some (py_list_lt version_int [2, 2, 3]))
      else Some False)"

definition old_client_str :: "string \<Rightarrow> py_error + bool option" where
  "old_client_str s =
     (case split_from CHR '','' [] [] s of
        [client, version, platform] \<Rightarrow>
          (case note_loop [''alpha'', ''beta'', ''rc''] (version, \<lambda>_. 0) of
             Inl e \<Rightarrow> Inl e
           | Inr (version', note) \<Rightarrow>
               (case ints_of (split_from CHR ''.'' [] [] (re_sub_suffix version')) of
                  Inl e \<Rightarrow> Inl e
                | Inr version_int \<Rightarrow> Inr (old_client_decide client version_int note)))
      | _ \<Rightarrow> Inl ValueError)"

text \<open>
  \<^verbatim>\<open>_old_client(cv)\<close>. A false \<open>cv\<close> (absent, empty) is not old. A true value that is not
  a string has no usable \<^verbatim>\<open>split\<close>.
\<close>

definition old_client :: "pyval \<Rightarrow> py_error + bool option" where
  "old_client cv =
     (if \<not> py_truthy cv then Inr (Some False)
      else (case cv of
              PStr s \<Rightarrow> old_client_str s
            | PBytes b \<Rightarrow> Inl TypeError
            | _ \<Rightarrow> Inl AttributeError))"

subsection \<open>\<^verbatim>\<open>meta\<close>\<close>






subsection \<open>\<^verbatim>\<open>removed\<close> and \<^verbatim>\<open>start\<close>\<close>

record tombstones =
  tomb_cards :: "int list"
  tomb_notes :: "int list"
  tomb_decks :: "int list"

text \<open>The loop of \<^verbatim>\<open>removed\<close> over the rows the query returns.\<close>

fun removed_loop :: "anki_consts \<Rightarrow> grave list \<Rightarrow> tombstones \<Rightarrow> tombstones" where
  "removed_loop k [] acc = acc"
| "removed_loop k (g # gs) acc =
     (if g_type g = REM_CARD k then removed_loop k gs (acc\<lparr>tomb_cards := tomb_cards acc @ [g_oid g]\<rparr>)
      else if g_type g = REM_NOTE k then removed_loop k gs (acc\<lparr>tomb_notes := tomb_notes acc @ [g_oid g]\<rparr>)
      else removed_loop k gs (acc\<lparr>tomb_decks := tomb_decks acc @ [g_oid g]\<rparr>))"

text \<open>\<^verbatim>\<open>select oid, type from graves where usn >= ?\<close> with \<open>minUsn\<close> bound.\<close>

definition graves_since :: "int \<Rightarrow> collection \<Rightarrow> grave list" where
  "graves_since m c = filter (\<lambda>g. g_usn g \<ge> m) (graves c)"

definition removed :: "anki_consts \<Rightarrow> sync_collection_handler \<Rightarrow> py_error + tombstones" where
  "removed k h =
     (case minUsn h of
        None \<Rightarrow> Inl AttributeError
      | Some m \<Rightarrow>
          Inr (removed_loop k (graves_since m (col h)) \<lparr>tomb_cards = [], tomb_notes = [], tomb_decks = []\<rparr>))"

text \<open>
  \<^verbatim>\<open>start(minUsn, lnewer, graves)\<close>. \<^verbatim>\<open>Syncer.remove\<close> is the Anki library's and a
  parameter here: given the client's graves it updates the collection and may raise.
\<close>

type_synonym syncer_remove = "pyval \<Rightarrow> collection \<Rightarrow> collection \<times> py_error option"

definition start ::
  "anki_consts \<Rightarrow> syncer_remove \<Rightarrow> sync_collection_handler \<Rightarrow> int \<Rightarrow> pyval \<Rightarrow> pyval
     \<Rightarrow> sync_collection_handler \<times> (py_error + tombstones)" where
  "start k Syncer_remove h minUsn_arg lnewer_arg graves_arg =
     (let h1 = h\<lparr>maxUsn := Some (col_usn (col h)),
                 minUsn := Some minUsn_arg,
                 lnewer := Some (\<not> py_truthy lnewer_arg)\<rparr>
      in (case removed k h1 of
            Inl e \<Rightarrow> (h1, Inl e)
          | Inr lgraves \<Rightarrow>
              (case Syncer_remove graves_arg (col h1) of
                 (c, Some e) \<Rightarrow> (h1\<lparr>col := c\<rparr>, Inl e)
               | (c, None) \<Rightarrow> (h1\<lparr>col := c\<rparr>, Inr lgraves))))"

text \<open>
  The tombstones \<^verbatim>\<open>removed\<close> builds, in closed form: the ids of the grave rows with
  \<open>usn \<ge> m\<close>, by type, in table order. (\<open>removed_loop_eq\<close> below relates it to the loop.)
\<close>

definition server_tombstones :: "anki_consts \<Rightarrow> int \<Rightarrow> collection \<Rightarrow> tombstones" where
  "server_tombstones k m c =
     \<lparr>tomb_cards = map g_oid (filter (\<lambda>g. g_type g = REM_CARD k) (graves_since m c)),
      tomb_notes = map g_oid
        (filter (\<lambda>g. g_type g \<noteq> REM_CARD k \<and> g_type g = REM_NOTE k) (graves_since m c)),
      tomb_decks = map g_oid
        (filter (\<lambda>g. g_type g \<noteq> REM_CARD k \<and> g_type g \<noteq> REM_NOTE k) (graves_since m c))\<rparr>"

definition tombstone_ids :: "tombstones \<Rightarrow> int set" where
  "tombstone_ids t = set (tomb_cards t) \<union> set (tomb_notes t) \<union> set (tomb_decks t)"

definition no_tombstones :: tombstones where
  "no_tombstones = \<lparr>tomb_cards = [], tomb_notes = [], tomb_decks = []\<rparr>"

subsection \<open>\<^verbatim>\<open>finish\<close>\<close>

text \<open>
  \<^verbatim>\<open>finish(mod)\<close> passes \<^verbatim>\<open>anki.utils.intTime(1000)\<close> to \<^verbatim>\<open>Syncer.finish\<close> and returns its
  result. Both functions are the Anki library's and parameters here: \<open>intTime\<close> maps its
  argument to a reading of the clock, \<open>Syncer_finish\<close> finishes the pass at the time given.
\<close>

definition finish ::
  "(int \<Rightarrow> int) \<Rightarrow> (sync_collection_handler \<Rightarrow> int \<Rightarrow> sync_collection_handler \<times> (py_error + int))
     \<Rightarrow> sync_collection_handler \<Rightarrow> pyval \<Rightarrow> sync_collection_handler \<times> (py_error + int)" where
  "finish intTime Syncer_finish h mod_arg = Syncer_finish h (intTime 1000)"

section \<open>SyncMediaHandler\<close>

definition SyncMediaHandler_operations :: "string list" where
  "SyncMediaHandler_operations =
     [''begin'', ''mediaChanges'', ''mediaSanity'', ''uploadChanges'', ''downloadFiles'']"

subsection \<open>Python containers\<close>

text \<open>
  What the media code does with the decoded \<^verbatim>\<open>_meta\<close>, whatever JSON value it is: iterate
  over it, unpack an element into two names, take its length, index it. A string iterates
  over its characters, a dictionary over its keys; a dictionary decoded from JSON has string
  keys only, so an integer index is a \<^verbatim>\<open>KeyError\<close>.
\<close>

fun py_iter :: "pyval \<Rightarrow> py_error + pyval list" where
  "py_iter (PList xs) = Inr xs"
| "py_iter (PStr s) = Inr (map (\<lambda>c. PStr [c]) s)"
| "py_iter (PDict kvs) = Inr (map (\<lambda>kv. PStr (fst kv)) kvs)"
| "py_iter (PBytes b) = Inr (map (\<lambda>w. PInt (uint w)) b)"
| "py_iter _ = Inl TypeError"

definition py_unpack2 :: "pyval \<Rightarrow> py_error + pyval \<times> pyval" where
  "py_unpack2 v =
     (case py_iter v of
        Inl e \<Rightarrow> Inl e
      | Inr xs \<Rightarrow> (case xs of [a, b] \<Rightarrow> Inr (a, b) | _ \<Rightarrow> Inl ValueError))"

fun py_len :: "pyval \<Rightarrow> py_error + nat" where
  "py_len (PList xs) = Inr (length xs)"
| "py_len (PStr s) = Inr (length s)"
| "py_len (PDict kvs) = Inr (length kvs)"
| "py_len (PBytes b) = Inr (length b)"
| "py_len _ = Inl TypeError"

text \<open>Indexing a sequence: a negative index counts from the end.\<close>

definition seq_index :: "'a list \<Rightarrow> int \<Rightarrow> py_error + 'a" where
  "seq_index xs i =
     (if 0 \<le> i then
        (if i < int (length xs) then Inr (xs ! nat i) else Inl IndexError)
      else
        (if - i \<le> int (length xs) then Inr (xs ! nat (int (length xs) + i))
         else Inl IndexError))"

fun py_getitem :: "pyval \<Rightarrow> int \<Rightarrow> py_error + pyval" where
  "py_getitem (PList xs) i = seq_index xs i"
| "py_getitem (PStr s) i =
     (case seq_index s i of Inl e \<Rightarrow> Inl e | Inr c \<Rightarrow> Inr (PStr [c]))"
| "py_getitem (PBytes b) i =
     (case seq_index b i of Inl e \<Rightarrow> Inl e | Inr w \<Rightarrow> Inr (PInt (uint w)))"
| "py_getitem (PDict kvs) i = Inl KeyError"
| "py_getitem _ i = Inl TypeError"

text \<open>\<^verbatim>\<open>d[key] = value\<close> on a dictionary kept in insertion order.\<close>

fun py_dict_set :: "string \<Rightarrow> 'v \<Rightarrow> (string \<times> 'v) list \<Rightarrow> (string \<times> 'v) list" where
  "py_dict_set key v [] = [(key, v)]"
| "py_dict_set key v (kv # kvs) =
     (if fst kv = key then (key, v) # kvs else kv # py_dict_set key v kvs)"

subsection \<open>The archive and the surroundings\<close>

text \<open>
  An opened \<^verbatim>\<open>zipfile.ZipFile\<close>: its members in the order of \<^verbatim>\<open>infolist()\<close>, each with the
  name and the size its header declares and with the bytes \<^verbatim>\<open>read\<close> returns. A lookup by
  name finds the last member of that name.
\<close>

record zip_info =
  filename :: string
  file_size :: int
  content :: bytes

type_synonym zip_file = "zip_info list"

definition zip_getinfo :: "zip_file \<Rightarrow> string \<Rightarrow> py_error + zip_info" where
  "zip_getinfo z name =
     (case filter (\<lambda>i. filename i = name) z of
        [] \<Rightarrow> Inl KeyError
      | i # is \<Rightarrow> Inr (last (i # is)))"

text \<open>
  What the media handler calls outside this repository, as parameters: the standard library
  (\<^verbatim>\<open>zipfile\<close>, \<^verbatim>\<open>bytes.decode\<close>, \<^verbatim>\<open>json.loads\<close>, \<^verbatim>\<open>unicodedata.normalize\<close> with the form of
  the platform), Anki's \<^verbatim>\<open>checksum\<close> and \<^verbatim>\<open>_mtime\<close>, whether the file system lets a file of
  the media directory be written or removed, and the exception, if any, that SQLite raises
  on a statement of \<^verbatim>\<open>executemany\<close> for a given file name.
\<close>

record media_env =
  open_zip :: "bytes \<Rightarrow> py_error + zip_file"
  utf8_decode :: "bytes \<Rightarrow> py_error + string"
  json_loads :: "string \<Rightarrow> py_error + pyval"
  normalize :: "string \<Rightarrow> string"
  checksum :: "bytes \<Rightarrow> string"
  file_mtime :: "string \<Rightarrow> int"
  can_write :: "string \<Rightarrow> bool"
  can_remove :: "string \<Rightarrow> bool"
  db_error :: "string \<Rightarrow> py_error option"

subsection \<open>\<^verbatim>\<open>begin\<close> and \<^verbatim>\<open>mediaChanges\<close>\<close>

definition begin_media :: "collection \<Rightarrow> pyval \<Rightarrow> pyval" where
  "begin_media c skey =
     PDict [(''data'', PDict [(''sk'', skey), (''usn'', PInt (media_lastUsn (media c)))]),
            (''err'', PStr [])]"



subsection \<open>\<^verbatim>\<open>uploadChanges\<close>\<close>

definition check_zip_data :: "zip_file \<Rightarrow> py_error + unit" where
  "check_zip_data z =
     (case zip_getinfo z ''_meta'' of
        Inl e \<Rightarrow> Inl e
      | Inr meta_info \<Rightarrow>
          (let meta_file_size = file_size meta_info;
               sum_file_sizes = sum_list (map file_size z)
           in if meta_file_size > 100000 then Inl ValueError
              else if sum_file_sizes > 100 * 1024 * 1024 then Inl ValueError
              else Inr ()))"

definition normalize_filename :: "media_env \<Rightarrow> pyval \<Rightarrow> py_error + string" where
  "normalize_filename env v = (case v of PStr s \<Rightarrow> Inr (normalize env s) | _ \<Rightarrow> Inl TypeError)"

text \<open>
  First loop of \<^verbatim>\<open>_adopt_media_changes_from_zip\<close>: every element of \<^verbatim>\<open>_meta\<close> is unpacked
  into \<^verbatim>\<open>normname, ordinal\<close>; an empty ordinal marks a file to remove.
\<close>

fun media_to_remove_loop :: "media_env \<Rightarrow> pyval list \<Rightarrow> string list \<Rightarrow> py_error + string list" where
  "media_to_remove_loop env [] acc = Inr acc"
| "media_to_remove_loop env (x # xs) acc =
     (case py_unpack2 x of
        Inl e \<Rightarrow> Inl e
      | Inr (normname, ordinal) \<Rightarrow>
          if ordinal = PStr [] then
            (case normalize_filename env normname of
               Inl e \<Rightarrow> Inl e
             | Inr f \<Rightarrow> media_to_remove_loop env xs (acc @ [f]))
          else media_to_remove_loop env xs acc)"

text \<open>
  \<^verbatim>\<open>open(file_path, 'wb')\<close>: a name with a NUL character raises \<^verbatim>\<open>ValueError\<close> before the
  file system is asked; a refusal of the file system is an \<^verbatim>\<open>OSError\<close>.
\<close>

definition open_error :: "media_env \<Rightarrow> string \<Rightarrow> py_error option" where
  "open_error env f =
     (if CHR 0x00 \<in> set f then Some ValueError
      else if \<not> can_write env f then Some OSError
      else None)"

text \<open>
  Second loop: every member but \<^verbatim>\<open>_meta\<close> is read, named after the \<^verbatim>\<open>_meta\<close> element its
  own name indexes, and written to the media directory at once. The files written stay
  written when a later member raises, so the media directory is returned in either case.
\<close>

fun media_to_add_loop ::
  "media_env \<Rightarrow> pyval \<Rightarrow> zip_info list \<Rightarrow> (string \<rightharpoonup> bytes) \<Rightarrow> media_row list
     \<Rightarrow> (string \<rightharpoonup> bytes) \<times> (py_error + media_row list)" where
  "media_to_add_loop env meta_val [] fs acc = (fs, Inr acc)"
| "media_to_add_loop env meta_val (i # is) fs acc =
     (if filename i = ''_meta'' then media_to_add_loop env meta_val is fs acc
      else
        (let file_data = content i; cs = checksum env file_data
         in (case py_int (filename i) of
               Inl e \<Rightarrow> (fs, Inl e)
             | Inr idx \<Rightarrow>
                 (case py_getitem meta_val idx of
                    Inl e \<Rightarrow> (fs, Inl e)
                  | Inr entry \<Rightarrow>
                      (case py_getitem entry 0 of
                         Inl e \<Rightarrow> (fs, Inl e)
                       | Inr nm \<Rightarrow>
                           (case normalize_filename env nm of
                              Inl e \<Rightarrow> (fs, Inl e)
                            | Inr f \<Rightarrow>
                                (case open_error env f of
                                   Some e \<Rightarrow> (fs, Inl e)
                                 | None \<Rightarrow>
                                     media_to_add_loop env meta_val is (fs(f \<mapsto> file_data))
                                       (acc @ [\<lparr>fname = f, csum = Some cs,
                                                mtime = file_mtime env f, dirty = 0\<rparr>]))))))))"

text \<open>
  \<^verbatim>\<open>_remove_media_files\<close>: \<^verbatim>\<open>executemany\<close> runs
  \<^verbatim>\<open>UPDATE media SET csum = NULL WHERE fname = ?\<close> for every name, then \<^verbatim>\<open>os.remove\<close> is
  called for every name. A statement SQLite refuses ends the \<^verbatim>\<open>executemany\<close> with the rows
  changed so far. Of the exceptions of \<^verbatim>\<open>os.remove\<close> only \<^verbatim>\<open>OSError\<close> is caught (and logged):
  the \<^verbatim>\<open>ValueError\<close> of a name with a NUL character ends the function, after the update.
\<close>

definition mark_deleted :: "string \<Rightarrow> media_row list \<Rightarrow> media_row list" where
  "mark_deleted f rows = map (\<lambda>r. if fname r = f then r\<lparr>csum := None\<rparr> else r) rows"

fun update_many ::
  "media_env \<Rightarrow> string list \<Rightarrow> media_row list \<Rightarrow> media_row list \<times> py_error option" where
  "update_many env [] rows = (rows, None)"
| "update_many env (f # fs) rows =
     (case db_error env f of
        Some e \<Rightarrow> (rows, Some e)
      | None \<Rightarrow> update_many env fs (mark_deleted f rows))"

definition os_remove :: "media_env \<Rightarrow> string \<Rightarrow> (string \<rightharpoonup> bytes) \<Rightarrow> (string \<rightharpoonup> bytes)" where
  "os_remove env f dir = (if f \<in> dom dir \<and> can_remove env f then dir(f := None) else dir)"

fun remove_files ::
  "media_env \<Rightarrow> string list \<Rightarrow> (string \<rightharpoonup> bytes) \<Rightarrow> (string \<rightharpoonup> bytes) \<times> py_error option" where
  "remove_files env [] dir = (dir, None)"
| "remove_files env (f # fs) dir =
     (if CHR 0x00 \<in> set f then (dir, Some ValueError)
      else remove_files env fs (os_remove env f dir))"

definition remove_media_files ::
  "media_env \<Rightarrow> string list \<Rightarrow> media_manager \<Rightarrow> media_manager \<times> py_error option" where
  "remove_media_files env filenames m =
     (case update_many env filenames (media_rows m) of
        (rows, Some e) \<Rightarrow> (m\<lparr>media_rows := rows\<rparr>, Some e)
      | (rows, None) \<Rightarrow>
          (case remove_files env filenames (media_dir m) of
             (dir, err) \<Rightarrow> (m\<lparr>media_rows := rows, media_dir := dir\<rparr>, err)))"

text \<open>
  \<^verbatim>\<open>executemany\<close> of \<^verbatim>\<open>INSERT OR REPLACE INTO media VALUES (?,?,?,?)\<close>: a row of the same name
  is replaced.
\<close>

definition insert_or_replace :: "media_row \<Rightarrow> media_row list \<Rightarrow> media_row list" where
  "insert_or_replace r rows = filter (\<lambda>x. fname x \<noteq> fname r) rows @ [r]"

fun insert_many ::
  "media_env \<Rightarrow> media_row list \<Rightarrow> media_row list \<Rightarrow> media_row list \<times> py_error option" where
  "insert_many env [] rows = (rows, None)"
| "insert_many env (r # rs) rows =
     (case db_error env (fname r) of
        Some e \<Rightarrow> (rows, Some e)
      | None \<Rightarrow> insert_many env rs (insert_or_replace r rows))"

text \<open>
  \<^verbatim>\<open>_adopt_media_changes_from_zip\<close>. Up to the \<^verbatim>\<open>assert\<close> only the media directory changes;
  the table is written after it.
\<close>

definition adopt_media_changes_from_zip ::
  "media_env \<Rightarrow> media_manager \<Rightarrow> zip_file \<Rightarrow> media_manager \<times> (py_error + nat)" where
  "adopt_media_changes_from_zip env m z =
     (case zip_getinfo z ''_meta'' of
        Inl e \<Rightarrow> (m, Inl e)
      | Inr meta_info \<Rightarrow>
     (case utf8_decode env (content meta_info) of
        Inl e \<Rightarrow> (m, Inl e)
      | Inr text \<Rightarrow>
     (case json_loads env text of
        Inl e \<Rightarrow> (m, Inl e)
      | Inr meta_val \<Rightarrow>
     (case py_iter meta_val of
        Inl e \<Rightarrow> (m, Inl e)
      | Inr elems \<Rightarrow>
     (case media_to_remove_loop env elems [] of
        Inl e \<Rightarrow> (m, Inl e)
      | Inr media_to_remove \<Rightarrow>
     (case media_to_add_loop env meta_val z (media_dir m) [] of
        (fs, Inl e) \<Rightarrow> (m\<lparr>media_dir := fs\<rparr>, Inl e)
      | (fs, Inr media_to_add) \<Rightarrow>
          (let m1 = m\<lparr>media_dir := fs\<rparr>;
               processed_count = length media_to_remove + length media_to_add
           in (case py_len meta_val of
                 Inl e \<Rightarrow> (m1, Inl e)
               | Inr n \<Rightarrow>
                   if n \<noteq> processed_count then (m1, Inl AssertionError)
                   else
                     (case (if media_to_remove \<noteq> []
                            then remove_media_files env media_to_remove m1
                            else (m1, None)) of
                        (m2, Some e) \<Rightarrow> (m2, Inl e)
                      | (m2, None) \<Rightarrow>
                          (case (if media_to_add \<noteq> []
                                 then insert_many env media_to_add (media_rows m2)
                                 else (media_rows m2, None)) of
                             (rows, Some e) \<Rightarrow> (m2\<lparr>media_rows := rows\<rparr>, Inl e)
                           | (rows, None) \<Rightarrow>
                               (m2\<lparr>media_rows := rows\<rparr>, Inr processed_count)))))))))))"

text \<open>
  \<^verbatim>\<open>uploadChanges(data)\<close>. \<^verbatim>\<open>lastUsn\<close> and \<^verbatim>\<open>setLastUsn\<close> are the media manager's own.
\<close>

definition uploadChanges ::
  "media_env \<Rightarrow> media_manager \<Rightarrow> bytes \<Rightarrow> media_manager \<times> (py_error + pyval)" where
  "uploadChanges env m data =
     (case open_zip env data of
        Inl e \<Rightarrow> (m, Inl e)
      | Inr z \<Rightarrow>
          (case check_zip_data z of
             Inl e \<Rightarrow> (m, Inl e)
           | Inr _ \<Rightarrow>
               (case adopt_media_changes_from_zip env m z of
                  (m1, Inl e) \<Rightarrow> (m1, Inl e)
                | (m1, Inr processed_count) \<Rightarrow>
                    (let our_last_usn = media_lastUsn m1;
                         m2 = m1\<lparr>media_lastUsn := our_last_usn + int processed_count\<rparr>
                     in (m2, Inr (PDict
                           [(''data'', PList [PInt (int processed_count),
                                              PInt (media_lastUsn m2)]),
                            (''err'', PStr [])]))))))"

subsection \<open>\<^verbatim>\<open>downloadFiles\<close>\<close>

text \<open>
  The loop of \<^verbatim>\<open>downloadFiles\<close>. \<open>zs\<close> are the members written so far (archive name and
  bytes), \<open>flist\<close> the dictionary that becomes \<^verbatim>\<open>_meta\<close>. A name with no file in the media
  directory makes \<^verbatim>\<open>z.write\<close> raise.
\<close>

fun downloadFiles_loop ::
  "anki_consts \<Rightarrow> (string \<rightharpoonup> bytes) \<Rightarrow> string list \<Rightarrow> int \<Rightarrow> int \<Rightarrow> (string \<times> string) list
     \<Rightarrow> (string \<times> bytes) list \<Rightarrow> py_error + (string \<times> bytes) list \<times> (string \<times> string) list" where
  "downloadFiles_loop k fs [] cnt sz flist zs = Inr (zs, flist)"
| "downloadFiles_loop k fs (f # files) cnt sz flist zs =
     (case fs f of
        None \<Rightarrow> Inl OSError
      | Some b \<Rightarrow>
          (let zs' = zs @ [(show_int cnt, b)];
               flist' = py_dict_set (show_int cnt) f flist;
               sz' = sz + int (length b)
           in if sz' > SYNC_ZIP_SIZE k \<or> cnt > SYNC_ZIP_COUNT k then Inr (zs', flist')
              else downloadFiles_loop k fs files (cnt + 1) sz' flist' zs'))"

text \<open>
  \<^verbatim>\<open>downloadFiles(files)\<close>: the archive as its members in order, followed by the dictionary
  written to \<^verbatim>\<open>_meta\<close>.
\<close>

definition downloadFiles ::
  "anki_consts \<Rightarrow> media_manager \<Rightarrow> string list
     \<Rightarrow> py_error + (string \<times> bytes) list \<times> (string \<times> string) list" where
  "downloadFiles k m files = downloadFiles_loop k (media_dir m) files 0 0 [] []"

text \<open>The bytes of an archive's members, \<^verbatim>\<open>_meta\<close> aside, as \<^verbatim>\<open>os.path.getsize\<close> counts them.\<close>

definition zip_bytes :: "(string \<times> bytes) list \<Rightarrow> int" where
  "zip_bytes zs = sum_list (map (\<lambda>z. int (length (snd z))) zs)"

section \<open>SyncUserSession\<close>

text \<open>
  A session with the two handlers it caches. A \<^verbatim>\<open>SyncMediaHandler\<close> holds nothing but its
  collection.
\<close>

datatype handler_family = CollectionFamily | MediaFamily

record session =
  s_skey :: "string option"
  s_name :: pyval
  s_path :: string
  s_version :: pyval
  s_client_version :: pyval
  collection_handler :: "sync_collection_handler option"
  media_handler :: "collection option"

text \<open>
  \<^verbatim>\<open>get_handler_for_operation(operation, col)\<close>: the class is chosen by the operation name, an
  instance is made when the session has none, and the instance is bound to \<open>col\<close> again.
\<close>

definition get_handler_for_operation ::
  "session \<Rightarrow> string \<Rightarrow> collection \<Rightarrow> py_error + handler_family \<times> session" where
  "get_handler_for_operation ses operation c =
     (if operation \<in> set SyncCollectionHandler_operations then
        (let h = (case collection_handler ses of
                    None \<Rightarrow> \<lparr>col = c, maxUsn = None, minUsn = None, lnewer = None\<rparr>
                  | Some h0 \<Rightarrow> h0)
         in Inr (CollectionFamily, ses\<lparr>collection_handler := Some (h\<lparr>col := c\<rparr>)\<rparr>))
      else if operation \<in> set SyncMediaHandler_operations then
        Inr (MediaFamily, ses\<lparr>media_handler := Some c\<rparr>)
      else Inl (PyException (''no handler for '' @ operation)))"

section \<open>SyncApp\<close>







subsection \<open>\<^verbatim>\<open>_decode_data\<close>\<close>






subsection \<open>Dictionary operations on the payload\<close>





subsection \<open>\<^verbatim>\<open>operation_hostKey\<close>\<close>



subsection \<open>\<^verbatim>\<open>_execute_handler_method_in_thread\<close>\<close>


subsection \<open>\<^verbatim>\<open>__call__\<close>\<close>










section \<open>Example states\<close>

text \<open>
  Concrete inputs for the examples below. The constants are those of Anki 2.1
  (\<^verbatim>\<open>SYNC_ZIP_SIZE = int(2.5*1024*1024)\<close>).
\<close>

definition example_consts :: anki_consts where
  "example_consts =
     \<lparr>SYNC_VER = 10, SYNC_ZIP_SIZE = 2621440, SYNC_ZIP_COUNT = 25, REM_CARD = 0, REM_NOTE = 1\<rparr>"

definition example_media :: media_manager where
  "example_media =
     \<lparr>db_connected = False,
      media_rows = [\<lparr>fname = ''a.jpg'', csum = Some ''c1'', mtime = 7, dirty = 0\<rparr>,
                    \<lparr>fname = ''b.jpg'', csum = None, mtime = 8, dirty = 0\<rparr>],
      media_lastUsn = 3,
      media_dir = [''a.jpg'' \<mapsto> [1, 2, 3]]\<rparr>"

definition example_col :: collection where
  "example_col =
     \<lparr>scm = 100, col_mod = 200, col_usn = 5, schedVer = 2,
      graves = [\<lparr>g_usn = 2, g_oid = 40, g_type = 1\<rparr>,
                \<lparr>g_usn = 5, g_oid = 42, g_type = 0\<rparr>,
                \<lparr>g_usn = 4, g_oid = 43, g_type = 2\<rparr>],
      media = example_media\<rparr>"

definition example_handler :: sync_collection_handler where
  "example_handler = \<lparr>col = example_col, maxUsn = None, minUsn = None, lnewer = None\<rparr>"

text \<open>
  \<^verbatim>\<open>Syncer.remove\<close> on a client that sends no graves
  (\<^verbatim>\<open>{"cards": [], "notes": [], "decks": []}\<close>, the default argument of \<^verbatim>\<open>start\<close>): nothing is
  removed and no grave row is written.
\<close>

definition no_remove :: syncer_remove where
  "no_remove gr c = (c, None)"

definition empty_graves :: pyval where
  "empty_graves = PDict [(''cards'', PList []), (''notes'', PList []), (''decks'', PList [])]"

text \<open>The same handler once the collection has moved on to USN 6.\<close>

definition quiet_handler :: sync_collection_handler where
  "quiet_handler = example_handler\<lparr>col := example_col\<lparr>col_usn := 6\<rparr>\<rparr>"

text \<open>
  An upload: \<^verbatim>\<open>_meta\<close> is \<^verbatim>\<open>[["foo.jpg", ""], ["bar.jpg", "1"]]\<close> and the member \<^verbatim>\<open>1\<close> holds
  three bytes; \<open>short_zip\<close> is the same archive without the member. \<open>example_env\<close> stands in
  for the libraries on the archives of this section: it opens them, decodes and parses
  their \<^verbatim>\<open>_meta\<close>, and refuses everything else.
\<close>

definition quoted :: "string \<Rightarrow> string" where
  "quoted s = CHR 0x22 # s @ [CHR 0x22]"

definition ascii_bytes :: "string \<Rightarrow> bytes" where
  "ascii_bytes s = map (\<lambda>c. of_nat (of_char c)) s"

definition example_meta_text :: string where
  "example_meta_text =
     ''[['' @ quoted ''foo.jpg'' @ '', '' @ quoted [] @ ''], ['' @
     quoted ''bar.jpg'' @ '', '' @ quoted ''1'' @ '']]''"

definition example_meta_val :: pyval where
  "example_meta_val = PList [PList [PStr ''foo.jpg'', PStr []], PList [PStr ''bar.jpg'', PStr ''1'']]"

definition example_zip :: zip_file where
  "example_zip =
     [\<lparr>filename = ''_meta'', file_size = 35, content = ascii_bytes example_meta_text\<rparr>,
      \<lparr>filename = ''1'', file_size = 3, content = [7, 8, 9]\<rparr>]"

definition short_zip :: zip_file where
  "short_zip =
     [\<lparr>filename = ''_meta'', file_size = 35, content = ascii_bytes example_meta_text\<rparr>]"

text \<open>
  The same \<^verbatim>\<open>_meta\<close> with one member named \<^verbatim>\<open>0\<close>: the member belongs to the element of
  \<^verbatim>\<open>foo.jpg\<close>, which is a deletion, and no member belongs to the element of \<^verbatim>\<open>bar.jpg\<close>.
\<close>

definition crossed_zip :: zip_file where
  "crossed_zip =
     [\<lparr>filename = ''_meta'', file_size = 35, content = ascii_bytes example_meta_text\<rparr>,
      \<lparr>filename = ''0'', file_size = 3, content = [7, 8, 9]\<rparr>]"

text \<open>
  An archive that deletes two files, the second under a name with a NUL character:
  \<^verbatim>\<open>_meta\<close> is \<^verbatim>\<open>[["foo.jpg", ""], ["a\u0000b", ""]]\<close>.
\<close>

definition nul_meta_text :: string where
  "nul_meta_text =
     ''[['' @ quoted ''foo.jpg'' @ '', '' @ quoted [] @ ''], ['' @
     quoted (''a'' @ [CHR 0x5C] @ ''u0000b'') @ '', '' @ quoted [] @ '']]''"

definition nul_meta_val :: pyval where
  "nul_meta_val =
     PList [PList [PStr ''foo.jpg'', PStr []],
            PList [PStr [CHR ''a'', CHR 0x00, CHR ''b''], PStr []]]"

definition nul_zip :: zip_file where
  "nul_zip =
     [\<lparr>filename = ''_meta'', file_size = 36, content = ascii_bytes nul_meta_text\<rparr>]"

definition example_env :: media_env where
  "example_env =
     \<lparr>open_zip = (\<lambda>data. if data = [80, 75, 1] then Inr example_zip
                        else if data = [80, 75, 2] then Inr short_zip
                        else if data = [80, 75, 3] then Inr crossed_zip
                        else if data = [80, 75, 4] then Inr nul_zip
                        else Inl (OtherError ''BadZipFile'')),
      utf8_decode = (\<lambda>b. if b = ascii_bytes example_meta_text then Inr example_meta_text
                           else if b = ascii_bytes nul_meta_text then Inr nul_meta_text
                           else Inl UnicodeDecodeError),
      json_loads = (\<lambda>s. if s = example_meta_text then Inr example_meta_val
                          else if s = nul_meta_text then Inr nul_meta_val
                          else Inl JSONDecodeError),
      normalize = (\<lambda>s. s),
      checksum = (\<lambda>b. ''csum'' @ show_nat (length b)),
      file_mtime = (\<lambda>f. 1500),
      can_write = (\<lambda>f. True),
      can_remove = (\<lambda>f. True),
      db_error = (\<lambda>f. None)\<rparr>"

definition upload_media :: media_manager where
  "upload_media =
     \<lparr>db_connected = True,
      media_rows = [\<lparr>fname = ''foo.jpg'', csum = Some ''c0'', mtime = 7, dirty = 0\<rparr>],
      media_lastUsn = 3,
      media_dir = [''foo.jpg'' \<mapsto> [1, 2, 3]]\<rparr>"








text \<open>A media directory in which every name is a file of one byte.\<close>

definition one_byte_dir :: media_manager where
  "one_byte_dir = example_media\<lparr>media_dir := (\<lambda>f. Some [1])\<rparr>"

section \<open>Properties\<close>

subsection \<open>Tombstones\<close>

lemma removed_loop_cards:
  "tomb_cards (removed_loop k gs acc) =
     tomb_cards acc @ map g_oid (filter (\<lambda>g. g_type g = REM_CARD k) gs)"
  by (induction gs arbitrary: acc) simp_all

lemma removed_loop_notes:
  "tomb_notes (removed_loop k gs acc) =
     tomb_notes acc @
     map g_oid (filter (\<lambda>g. g_type g \<noteq> REM_CARD k \<and> g_type g = REM_NOTE k) gs)"
  by (induction gs arbitrary: acc) simp_all

lemma removed_loop_decks:
  "tomb_decks (removed_loop k gs acc) =
     tomb_decks acc @
     map g_oid (filter (\<lambda>g. g_type g \<noteq> REM_CARD k \<and> g_type g \<noteq> REM_NOTE k) gs)"
  by (induction gs arbitrary: acc) simp_all

lemma removed_loop_eq:
  "removed_loop k (graves_since m c) \<lparr>tomb_cards = [], tomb_notes = [], tomb_decks = []\<rparr> =
     server_tombstones k m c"
  by (simp add: server_tombstones_def removed_loop_cards removed_loop_notes removed_loop_decks)

lemma tombstone_ids_server:
  "tombstone_ids (server_tombstones k m c) = g_oid ` {g \<in> set (graves c). g_usn g \<ge> m}"
  by (auto simp: tombstone_ids_def server_tombstones_def graves_since_def)

lemma server_tombstones_empty:
  "(server_tombstones k m c = no_tombstones) = (\<forall>g \<in> set (graves c). g_usn g < m)"
  by (auto simp: server_tombstones_def no_tombstones_def graves_since_def filter_empty_conv not_le)

lemma start_eq:
  "start k rm h m ln gr =
     (h\<lparr>maxUsn := Some (col_usn (col h)), minUsn := Some m, lnewer := Some (\<not> py_truthy ln),
        col := fst (rm gr (col h))\<rparr>,
      case snd (rm gr (col h)) of Some e \<Rightarrow> Inl e | None \<Rightarrow> Inr (server_tombstones k m (col h)))"
  by (cases "rm gr (col h)")
     (auto simp: start_def removed_def removed_loop_eq Let_def split: option.splits)

text \<open>
  Claim C4. \<^verbatim>\<open>start(minUsn, lnewer, graves)\<close> stores the current server USN as \<open>maxUsn\<close>, stores
  \<open>minUsn\<close>, stores the negation of \<open>lnewer\<close>, and hands the client's graves to
  \<^verbatim>\<open>Syncer.remove\<close>. What it returns was computed from the collection as it was before that
  call: the grave rows with \<open>usn \<ge> minUsn\<close>, by type. When \<^verbatim>\<open>Syncer.remove\<close> raises, so does
  \<^verbatim>\<open>start\<close>. Every id returned is the id of a grave row with \<open>usn \<ge> minUsn\<close>.
\<close>

theorem start_returns_server_tombstones:
  assumes "start k Syncer_remove h m ln gr = (h', r)"
  shows "maxUsn h' = Some (col_usn (col h)) \<and> minUsn h' = Some m \<and>
         lnewer h' = Some (\<not> py_truthy ln) \<and>
         col h' = fst (Syncer_remove gr (col h)) \<and>
         (case snd (Syncer_remove gr (col h)) of
            Some e \<Rightarrow> r = Inl e
          | None \<Rightarrow> r = Inr (server_tombstones k m (col h))) \<and>
         (\<forall>t. r = Inr t \<longrightarrow>
            (\<forall>oid \<in> tombstone_ids t. \<exists>g \<in> set (graves (col h)). g_oid g = oid \<and> g_usn g \<ge> m))"
  using assms unfolding start_eq
  by (auto simp: tombstone_ids_server split: option.splits)

theorem start_returns_server_tombstones_witness:
  "start example_consts no_remove example_handler 4 (PBool True) empty_graves =
     (example_handler\<lparr>maxUsn := Some 5, minUsn := Some 4, lnewer := Some False\<rparr>,
      Inr \<lparr>tomb_cards = [42], tomb_notes = [], tomb_decks = [43]\<rparr>)
   \<and> server_tombstones example_consts 4 (col example_handler) =
       \<lparr>tomb_cards = [42], tomb_notes = [], tomb_decks = [43]\<rparr>"
proof -
  have e: "start example_consts no_remove example_handler 4 (PBool True) empty_graves =
     (example_handler\<lparr>maxUsn := Some 5, minUsn := Some 4, lnewer := Some False\<rparr>,
      Inr \<lparr>tomb_cards = [42], tomb_notes = [], tomb_decks = [43]\<rparr>)"
    by (simp add: start_def removed_def graves_since_def no_remove_def example_handler_def
        example_col_def example_consts_def Let_def)
  from start_returns_server_tombstones [OF e] e show ?thesis
    by (simp add: no_remove_def)
qed

text \<open>
  Claim C6, as stated: after \<^verbatim>\<open>start\<close> has returned, running \<^verbatim>\<open>start\<close> again with \<open>minUsn\<close>
  equal to the \<open>maxUsn\<close> of the first run returns no tombstones. The query is
  \<open>usn \<ge> minUsn\<close> and \<^verbatim>\<open>start\<close> changes no grave row, so a row stamped with the current
  server USN is returned again: here the row of card 42 has \<open>usn = 5 = maxUsn\<close>.
\<close>

theorem restart_at_watermark_counterexample:
  "start example_consts no_remove example_handler 0 (PBool False) empty_graves =
     (example_handler\<lparr>maxUsn := Some 5, minUsn := Some 0, lnewer := Some True\<rparr>,
      Inr \<lparr>tomb_cards = [42], tomb_notes = [40], tomb_decks = [43]\<rparr>)
   \<and> snd (start example_consts no_remove
           (example_handler\<lparr>maxUsn := Some 5, minUsn := Some 0, lnewer := Some True\<rparr>)
           5 (PBool False) empty_graves) =
     Inr \<lparr>tomb_cards = [42], tomb_notes = [], tomb_decks = []\<rparr>"
  by (simp add: start_def removed_def graves_since_def no_remove_def example_handler_def
        example_col_def example_consts_def Let_def)

text \<open>
  Claim C6, amended: the second run returns the grave rows whose \<open>usn\<close> is at least the first
  run's \<open>maxUsn\<close>, which is the server USN at the first run; it returns no tombstones exactly
  when every grave row of the collection then has a smaller \<open>usn\<close>.
\<close>

theorem restart_at_watermark:
  assumes "start k rm h m ln gr = (h1, Inr t)"
    and "maxUsn h1 = Some mx"
    and "start k rm' h1 mx ln' gr' = (h2, Inr t')"
  shows "mx = col_usn (col h) \<and> t' = server_tombstones k mx (col h1) \<and>
         (t' = no_tombstones) = (\<forall>g \<in> set (graves (col h1)). g_usn g < mx)"
  using assms unfolding start_eq
  by (auto simp: server_tombstones_empty split: option.splits)

theorem restart_at_watermark_witness:
  "start example_consts no_remove quiet_handler 0 (PBool False) empty_graves =
     (quiet_handler\<lparr>maxUsn := Some 6, minUsn := Some 0, lnewer := Some True\<rparr>,
      Inr \<lparr>tomb_cards = [42], tomb_notes = [40], tomb_decks = [43]\<rparr>)
   \<and> start example_consts no_remove
        (quiet_handler\<lparr>maxUsn := Some 6, minUsn := Some 0, lnewer := Some True\<rparr>)
        6 (PBool False) empty_graves =
      (quiet_handler\<lparr>maxUsn := Some 6, minUsn := Some 6, lnewer := Some True\<rparr>, Inr no_tombstones)
   \<and> (no_tombstones = no_tombstones) =
       (\<forall>g \<in> set (graves (col (quiet_handler\<lparr>maxUsn := Some 6, minUsn := Some 0, lnewer := Some True\<rparr>))). g_usn g < 6)"
proof -
  let ?h1 = "quiet_handler\<lparr>maxUsn := Some 6, minUsn := Some 0, lnewer := Some True\<rparr>"
  have a: "start example_consts no_remove quiet_handler 0 (PBool False) empty_graves =
     (?h1, Inr \<lparr>tomb_cards = [42], tomb_notes = [40], tomb_decks = [43]\<rparr>)"
    by (simp add: start_def removed_def graves_since_def no_remove_def example_handler_def
        quiet_handler_def example_col_def example_consts_def Let_def)
  have b: "maxUsn ?h1 = Some 6" by simp
  have c: "start example_consts no_remove ?h1 6 (PBool False) empty_graves =
      (quiet_handler\<lparr>maxUsn := Some 6, minUsn := Some 6, lnewer := Some True\<rparr>, Inr no_tombstones)"
    by (simp add: start_def removed_def graves_since_def no_remove_def example_handler_def
        quiet_handler_def example_col_def example_consts_def Let_def no_tombstones_def)
  from restart_at_watermark [OF a b c] a c show ?thesis by simp
qed

subsection \<open>Version negotiation\<close>





text \<open>
  \<^verbatim>\<open>int\<close> does not skip the separators \<^verbatim>\<open>\x1c\<close> to \<^verbatim>\<open>\x1f\<close>, so a version that carries one
  does not parse.
\<close>

lemma int_separator_not_space:
  "py_int [CHR 0x1C, CHR ''3''] = Inl ValueError \<and> py_int [CHR 0x20, CHR ''3''] = Inr 3 \<and>
   old_client (PStr (''ankidroid,2.3alpha'' @ [CHR 0x1C] @ ''3,android'')) = Inl ValueError"
  by code_simp






subsection \<open>Finishing a pass\<close>

text \<open>
  What this repository decides about \<^verbatim>\<open>finish\<close>: the argument \<open>mod\<close> plays no part, and the
  time handed to \<^verbatim>\<open>Syncer.finish\<close> is \<^verbatim>\<open>intTime(1000)\<close>, whatever the library makes of it.
\<close>

lemma finish_ignores_mod:
  "finish intTime Syncer_finish h m1 = finish intTime Syncer_finish h m2"
  by (simp add: finish_def)

subsection \<open>Media upload\<close>

lemma media_to_remove_loop_length:
  "media_to_remove_loop env xs acc = Inr rm \<Longrightarrow>
     length rm = length acc +
       length (filter (\<lambda>x. case py_unpack2 x of Inl e \<Rightarrow> False
                                | Inr (normname, ordinal) \<Rightarrow> ordinal = PStr []) xs)"
proof (induction xs arbitrary: acc)
  case Nil
  then show ?case by simp
next
  case (Cons x xs)
  then show ?case
    by (auto split: sum.splits prod.splits if_splits)
qed

lemma media_to_add_loop_length:
  "media_to_add_loop env mv is fs acc = (fs', Inr adds) \<Longrightarrow>
     length adds = length acc + length (filter (\<lambda>i. filename i \<noteq> ''_meta'') is)"
proof (induction "is" arbitrary: fs acc)
  case Nil
  then show ?case by simp
next
  case (Cons i "is")
  show ?case
  proof (cases "filename i = ''_meta''")
    case True
    with Cons show ?thesis by simp
  next
    case False
    with Cons.prems obtain f where
      "media_to_add_loop env mv is (fs(f \<mapsto> content i))
         (acc @ [\<lparr>fname = f, csum = Some (checksum env (content i)),
                  mtime = file_mtime env f, dirty = 0\<rparr>]) = (fs', Inr adds)"
      by (auto simp: Let_def split: sum.splits option.splits)
    from Cons.IH [OF this] False show ?thesis by simp
  qed
qed

lemma remove_media_files_lastUsn:
  "media_lastUsn (fst (remove_media_files env fs m)) = media_lastUsn m"
  by (auto simp: remove_media_files_def split: prod.splits option.splits)

lemma adopt_lastUsn:
  "media_lastUsn (fst (adopt_media_changes_from_zip env m z)) = media_lastUsn m"
proof -
  have r: "media_lastUsn m2 = media_lastUsn m1"
    if "remove_media_files env fs m1 = (m2, err)" for fs m1 m2 err
    using remove_media_files_lastUsn [of env fs m1] that by simp
  show ?thesis
    by (auto simp: adopt_media_changes_from_zip_def Let_def r
        split: sum.splits prod.splits option.splits if_splits)
qed

lemma adopt_assertion:
  assumes "zip_getinfo z ''_meta'' = Inr mi" "utf8_decode env (content mi) = Inr decoded"
    "json_loads env decoded = Inr mv" "py_iter mv = Inr elems"
    "media_to_remove_loop env elems [] = Inr rm"
    "media_to_add_loop env mv z (media_dir m) [] = (fs, Inr adds)"
    "py_len mv = Inr n" "n \<noteq> length rm + length adds"
  shows "adopt_media_changes_from_zip env m z = (m\<lparr>media_dir := fs\<rparr>, Inl AssertionError)"
  using assms by (simp add: adopt_media_changes_from_zip_def Let_def)

lemma adopt_ok:
  assumes "adopt_media_changes_from_zip env m z = (m', Inr pc)"
  shows "\<exists>mi decoded mv elems rm fs adds.
       zip_getinfo z ''_meta'' = Inr mi \<and> utf8_decode env (content mi) = Inr decoded \<and>
       json_loads env decoded = Inr mv \<and> py_iter mv = Inr elems \<and>
       media_to_remove_loop env elems [] = Inr rm \<and>
       media_to_add_loop env mv z (media_dir m) [] = (fs, Inr adds) \<and>
       py_len mv = Inr pc \<and> pc = length rm + length adds"
  using assms
  by (auto simp: adopt_media_changes_from_zip_def Let_def
      split: sum.splits prod.splits option.splits if_splits)


text \<open>
  Claim C1, as stated, has the request abort whenever some element of \<^verbatim>\<open>_meta\<close> has no
  matching action. The \<^verbatim>\<open>assert\<close> compares two counts only. Here \<^verbatim>\<open>_meta\<close> is
  \<^verbatim>\<open>[["foo.jpg", ""], ["bar.jpg", "1"]]\<close> and the one member is named \<^verbatim>\<open>0\<close>: the element of
  \<^verbatim>\<open>foo.jpg\<close> is counted as a deletion and, through the member, as an addition, the element
  of \<^verbatim>\<open>bar.jpg\<close> has no action, the counts agree, and the upload is accepted with
  \<^verbatim>\<open>[2, 5]\<close>; \<^verbatim>\<open>bar.jpg\<close> reaches neither the table nor the directory.
\<close>

theorem uploadChanges_usn_counterexample:
  "map filename crossed_zip = [''_meta'', ''0''] \<and>
   json_loads example_env example_meta_text =
     Inr (PList [PList [PStr ''foo.jpg'', PStr []], PList [PStr ''bar.jpg'', PStr ''1'']]) \<and>
   snd (uploadChanges example_env upload_media [80, 75, 3]) =
     Inr (PDict [(''data'', PList [PInt 2, PInt 5]), (''err'', PStr [])]) \<and>
   media_rows (fst (uploadChanges example_env upload_media [80, 75, 3])) =
     [\<lparr>fname = ''foo.jpg'', csum = Some ''csum3'', mtime = 1500, dirty = 0\<rparr>] \<and>
   media_dir (fst (uploadChanges example_env upload_media [80, 75, 3])) ''bar.jpg'' = None"
proof -
  have a: "map filename crossed_zip = [''_meta'', ''0'']"
    by (simp add: crossed_zip_def)
  have b: "json_loads example_env example_meta_text =
     Inr (PList [PList [PStr ''foo.jpg'', PStr []], PList [PStr ''bar.jpg'', PStr ''1'']])"
    by (simp add: example_env_def example_meta_val_def)
  have c: "snd (uploadChanges example_env upload_media [80, 75, 3]) =
     Inr (PDict [(''data'', PList [PInt 2, PInt 5]), (''err'', PStr [])])"
    by code_simp
  have d: "media_rows (fst (uploadChanges example_env upload_media [80, 75, 3])) =
     [\<lparr>fname = ''foo.jpg'', csum = Some ''csum3'', mtime = 1500, dirty = 0\<rparr>]"
    by code_simp
  have e: "media_dir (fst (uploadChanges example_env upload_media [80, 75, 3])) ''bar.jpg'' = None"
    by code_simp
  from a b c d e show ?thesis by simp
qed

text \<open>
  Claim C1, amended. When \<^verbatim>\<open>uploadChanges\<close> returns, it returns
  \<^verbatim>\<open>{'data': [processed_count, lastUsn], 'err': ''}\<close> where the media USN has grown by
  \<^verbatim>\<open>processed_count\<close>, which is the length of the decoded \<^verbatim>\<open>_meta\<close> and the number of its
  elements with an empty ordinal plus the number of members other than \<^verbatim>\<open>_meta\<close>. When it
  raises, the media USN is as before. When both loops have run and the length of \<^verbatim>\<open>_meta\<close>
  is not the number of files they processed, it raises \<^verbatim>\<open>AssertionError\<close> and the \<^verbatim>\<open>media\<close>
  table and the media USN are as before. (The files of the members have been written to the
  media directory by then.)
\<close>

theorem uploadChanges_usn:
  assumes "uploadChanges env m data = (m', r)"
  shows "(\<forall>res. r = Inr res \<longrightarrow>
            (\<exists>z mi decoded mv elems pc.
               open_zip env data = Inr z \<and> zip_getinfo z ''_meta'' = Inr mi \<and>
               utf8_decode env (content mi) = Inr decoded \<and> json_loads env decoded = Inr mv \<and>
               py_iter mv = Inr elems \<and>
               res = PDict [(''data'', PList [PInt (int pc), PInt (media_lastUsn m')]),
                            (''err'', PStr [])] \<and>
               media_lastUsn m' - media_lastUsn m = int pc \<and>
               py_len mv = Inr pc \<and>
               pc = length (filter (\<lambda>x. case py_unpack2 x of Inl e \<Rightarrow> False
                                       | Inr (normname, ordinal) \<Rightarrow> ordinal = PStr []) elems) +
                    length (filter (\<lambda>i. filename i \<noteq> ''_meta'') z))) \<and>
         (\<forall>e. r = Inl e \<longrightarrow> media_lastUsn m' = media_lastUsn m) \<and>
         (\<forall>z mi decoded mv elems rm fs adds n.
            open_zip env data = Inr z \<and> check_zip_data z = Inr () \<and>
            zip_getinfo z ''_meta'' = Inr mi \<and> utf8_decode env (content mi) = Inr decoded \<and>
            json_loads env decoded = Inr mv \<and> py_iter mv = Inr elems \<and>
            media_to_remove_loop env elems [] = Inr rm \<and>
            media_to_add_loop env mv z (media_dir m) [] = (fs, Inr adds) \<and>
            py_len mv = Inr n \<and> n \<noteq> length rm + length adds \<longrightarrow>
            r = Inl AssertionError \<and> media_rows m' = media_rows m \<and>
            media_lastUsn m' = media_lastUsn m)"
proof -
  have ok: "\<exists>z mi decoded mv elems pc.
               open_zip env data = Inr z \<and> zip_getinfo z ''_meta'' = Inr mi \<and>
               utf8_decode env (content mi) = Inr decoded \<and> json_loads env decoded = Inr mv \<and>
               py_iter mv = Inr elems \<and>
               res = PDict [(''data'', PList [PInt (int pc), PInt (media_lastUsn m')]),
                            (''err'', PStr [])] \<and>
               media_lastUsn m' - media_lastUsn m = int pc \<and>
               py_len mv = Inr pc \<and>
               pc = length (filter (\<lambda>x. case py_unpack2 x of Inl e \<Rightarrow> False
                                       | Inr (normname, ordinal) \<Rightarrow> ordinal = PStr []) elems) +
                    length (filter (\<lambda>i. filename i \<noteq> ''_meta'') z)"
    if r: "r = Inr res" for res
  proof -
    from r assms obtain z m1 pc where
      z: "open_zip env data = Inr z" and
      ad: "adopt_media_changes_from_zip env m z = (m1, Inr pc)" and
      m': "m' = m1\<lparr>media_lastUsn := media_lastUsn m1 + int pc\<rparr>" and
      res: "res = PDict [(''data'', PList [PInt (int pc), PInt (media_lastUsn m')]),
                         (''err'', PStr [])]"
      by (auto simp: uploadChanges_def Let_def split: sum.splits prod.splits)
    from adopt_lastUsn [of env m z] ad have u: "media_lastUsn m1 = media_lastUsn m"
      by simp
    from adopt_ok [OF ad] obtain mi decoded mv elems rm fs adds where
      d: "zip_getinfo z ''_meta'' = Inr mi"
      "utf8_decode env (content mi) = Inr decoded" "json_loads env decoded = Inr mv"
      "py_iter mv = Inr elems" "py_len mv = Inr pc" and
      l: "media_to_remove_loop env elems [] = Inr rm"
      "media_to_add_loop env mv z (media_dir m) [] = (fs, Inr adds)"
      "pc = length rm + length adds"
      by blast
    from media_to_remove_loop_length [OF l(1)] media_to_add_loop_length [OF l(2)] l(3)
    have "pc = length (filter (\<lambda>x. case py_unpack2 x of Inl e \<Rightarrow> False
                                  | Inr (normname, ordinal) \<Rightarrow> ordinal = PStr []) elems) +
               length (filter (\<lambda>i. filename i \<noteq> ''_meta'') z)"
      by simp
    with z d u m' res show ?thesis
      by (intro exI [of _ z] exI [of _ mi] exI [of _ decoded] exI [of _ mv] exI [of _ elems]
          exI [of _ pc]) simp
  qed
  have err: "media_lastUsn m' = media_lastUsn m" if "r = Inl e" for e
  proof -
    from that assms
    have "m' = m \<or> (\<exists>z. adopt_media_changes_from_zip env m z = (m', Inl e))"
      by (auto simp: uploadChanges_def Let_def split: sum.splits prod.splits)
    then show ?thesis
    proof
      assume "m' = m"
      then show ?thesis by simp
    next
      assume "\<exists>z. adopt_media_changes_from_zip env m z = (m', Inl e)"
      then obtain z where "adopt_media_changes_from_zip env m z = (m', Inl e)" ..
      with adopt_lastUsn [of env m z] show ?thesis by simp
    qed
  qed
  have asrt: "r = Inl AssertionError \<and> media_rows m' = media_rows m \<and>
      media_lastUsn m' = media_lastUsn m"
    if a: "open_zip env data = Inr z \<and> check_zip_data z = Inr () \<and>
            zip_getinfo z ''_meta'' = Inr mi \<and> utf8_decode env (content mi) = Inr decoded \<and>
            json_loads env decoded = Inr mv \<and> py_iter mv = Inr elems \<and>
            media_to_remove_loop env elems [] = Inr rm \<and>
            media_to_add_loop env mv z (media_dir m) [] = (fs, Inr adds) \<and>
            py_len mv = Inr n \<and> n \<noteq> length rm + length adds"
    for z mi decoded mv elems rm fs adds n
  proof -
    from a have "adopt_media_changes_from_zip env m z = (m\<lparr>media_dir := fs\<rparr>, Inl AssertionError)"
      by (intro adopt_assertion) auto
    with a assms show ?thesis
      by (auto simp: uploadChanges_def)
  qed
  from ok err asrt show ?thesis by blast
qed

theorem uploadChanges_usn_witness:
  "snd (uploadChanges example_env upload_media [80, 75, 1]) =
     Inr (PDict [(''data'', PList [PInt 2, PInt 5]), (''err'', PStr [])]) \<and>
   media_lastUsn (fst (uploadChanges example_env upload_media [80, 75, 1])) - 3 = 2 \<and>
   media_rows (fst (uploadChanges example_env upload_media [80, 75, 1])) =
     [\<lparr>fname = ''foo.jpg'', csum = None, mtime = 7, dirty = 0\<rparr>,
      \<lparr>fname = ''bar.jpg'', csum = Some ''csum3'', mtime = 1500, dirty = 0\<rparr>] \<and>
   snd (uploadChanges example_env upload_media [80, 75, 2]) = Inl AssertionError \<and>
   media_rows (fst (uploadChanges example_env upload_media [80, 75, 2])) =
     [\<lparr>fname = ''foo.jpg'', csum = Some ''c0'', mtime = 7, dirty = 0\<rparr>] \<and>
   media_lastUsn (fst (uploadChanges example_env upload_media [80, 75, 2])) = 3"
proof -
  let ?ok = "uploadChanges example_env upload_media [80, 75, 1]"
  let ?bad = "uploadChanges example_env upload_media [80, 75, 2]"
  have r1: "snd ?ok = Inr (PDict [(''data'', PList [PInt 2, PInt 5]), (''err'', PStr [])])"
    by code_simp
  have u1: "media_lastUsn upload_media = 3"
    and rows0: "media_rows upload_media =
      [\<lparr>fname = ''foo.jpg'', csum = Some ''c0'', mtime = 7, dirty = 0\<rparr>]"
    by (simp_all add: upload_media_def)
  have rows1: "media_rows (fst ?ok) =
     [\<lparr>fname = ''foo.jpg'', csum = None, mtime = 7, dirty = 0\<rparr>,
      \<lparr>fname = ''bar.jpg'', csum = Some ''csum3'', mtime = 1500, dirty = 0\<rparr>]"
    by code_simp
  have ok: "?ok = (fst ?ok, snd ?ok)" and bad: "?bad = (fst ?bad, snd ?bad)"
    by simp_all
  from uploadChanges_usn [OF ok] r1 u1
  have usn1: "media_lastUsn (fst ?ok) - 3 = 2"
    by auto
  have z: "open_zip example_env [80, 75, 2] = Inr short_zip"
    by (simp add: example_env_def)
  have chk: "check_zip_data short_zip = Inr ()"
    by code_simp
  have mi: "zip_getinfo short_zip ''_meta'' =
      Inr \<lparr>filename = ''_meta'', file_size = 35, content = ascii_bytes example_meta_text\<rparr>"
    by (simp add: zip_getinfo_def short_zip_def)
  have dec: "utf8_decode example_env (ascii_bytes example_meta_text) = Inr example_meta_text"
    and js: "json_loads example_env example_meta_text = Inr example_meta_val"
    by (simp_all add: example_env_def)
  have it: "py_iter example_meta_val =
      Inr [PList [PStr ''foo.jpg'', PStr []], PList [PStr ''bar.jpg'', PStr ''1'']]"
    and ln: "py_len example_meta_val = Inr 2"
    by (simp_all add: example_meta_val_def)
  have rm: "media_to_remove_loop example_env
      [PList [PStr ''foo.jpg'', PStr []], PList [PStr ''bar.jpg'', PStr ''1'']] [] = Inr [''foo.jpg'']"
    by (simp add: py_unpack2_def normalize_filename_def example_env_def)
  have ad: "media_to_add_loop example_env example_meta_val short_zip (media_dir upload_media) [] =
      (media_dir upload_media, Inr [])"
    by (simp add: short_zip_def)
  from uploadChanges_usn [OF bad] z chk mi dec js it ln rm ad
  have keep: "snd ?bad = Inl AssertionError \<and> media_rows (fst ?bad) = media_rows upload_media \<and>
      media_lastUsn (fst ?bad) = media_lastUsn upload_media"
    by (elim conjE allE [of _ short_zip]
        allE [of _ "\<lparr>filename = ''_meta'', file_size = 35, content = ascii_bytes example_meta_text\<rparr>"]
        allE [of _ example_meta_text] allE [of _ example_meta_val]
        allE [of _ "[PList [PStr ''foo.jpg'', PStr []], PList [PStr ''bar.jpg'', PStr ''1'']]"]
        allE [of _ "[''foo.jpg'']"] allE [of _ "media_dir upload_media"]
        allE [of _ "[]::media_row list"] allE [of _ "2::nat"]) simp
  from r1 usn1 rows1 keep u1 rows0 show ?thesis by simp
qed

text \<open>
  After the \<^verbatim>\<open>assert\<close> the table is written, and an exception from there on leaves it
  changed: this archive deletes \<^verbatim>\<open>foo.jpg\<close> and a name with a NUL character; the update has
  marked \<^verbatim>\<open>foo.jpg\<close> deleted when \<^verbatim>\<open>os.remove\<close> raises \<^verbatim>\<open>ValueError\<close> on the second name.
\<close>

lemma uploadChanges_fails_after_update:
  "snd (uploadChanges example_env upload_media [80, 75, 4]) = Inl ValueError \<and>
   media_rows (fst (uploadChanges example_env upload_media [80, 75, 4])) =
     [\<lparr>fname = ''foo.jpg'', csum = None, mtime = 7, dirty = 0\<rparr>] \<and>
   media_lastUsn (fst (uploadChanges example_env upload_media [80, 75, 4])) = 3"
  by code_simp

subsection \<open>Media changes\<close>




subsection \<open>Media download\<close>

lemma zip_bytes_simps [simp]:
  "zip_bytes [] = 0" "zip_bytes (zs @ [z]) = zip_bytes zs + int (length (snd z))"
  by (simp_all add: zip_bytes_def)

lemma downloadFiles_loop_bounds:
  assumes "downloadFiles_loop k fs files cnt sz flist zs = Inr (zs', flist')"
    and "sz \<le> SYNC_ZIP_SIZE k"
  shows "\<exists>added. zs' = zs @ added \<and> length added \<le> length files \<and>
           map snd added = map (\<lambda>f. the (fs f)) (take (length added) files) \<and>
           (added \<noteq> [] \<longrightarrow> sz + zip_bytes (butlast added) \<le> SYNC_ZIP_SIZE k) \<and>
           (2 \<le> length added \<longrightarrow> cnt + int (length added) - 2 \<le> SYNC_ZIP_COUNT k) \<and>
           (length added < length files \<longrightarrow>
              sz + zip_bytes added > SYNC_ZIP_SIZE k \<or> cnt + int (length added) - 1 > SYNC_ZIP_COUNT k)"
  using assms
proof (induction files arbitrary: cnt sz flist zs)
  case Nil
  then show ?case by simp
next
  case (Cons f files)
  from Cons.prems obtain b where b: "fs f = Some b"
    by (auto split: option.splits)
  let ?zs = "zs @ [(show_int cnt, b)]"
  let ?sz = "sz + int (length b)"
  show ?case
  proof (cases "?sz > SYNC_ZIP_SIZE k \<or> cnt > SYNC_ZIP_COUNT k")
    case True
    with Cons.prems b have "zs' = ?zs" by (auto simp: Let_def)
    with True b Cons.prems(2) show ?thesis
      by (intro exI [of _ "[(show_int cnt, b)]"]) (auto simp: zip_bytes_def)
  next
    case False
    with Cons.prems b have
      "downloadFiles_loop k fs files (cnt + 1) ?sz (py_dict_set (show_int cnt) f flist) ?zs =
         Inr (zs', flist')"
      by (auto simp: Let_def)
    moreover from False have "?sz \<le> SYNC_ZIP_SIZE k" by simp
    ultimately obtain added where a:
      "zs' = ?zs @ added" "length added \<le> length files"
      "map snd added = map (\<lambda>f. the (fs f)) (take (length added) files)"
      "added \<noteq> [] \<longrightarrow> ?sz + zip_bytes (butlast added) \<le> SYNC_ZIP_SIZE k"
      "2 \<le> length added \<longrightarrow> cnt + 1 + int (length added) - 2 \<le> SYNC_ZIP_COUNT k"
      "length added < length files \<longrightarrow>
         ?sz + zip_bytes added > SYNC_ZIP_SIZE k \<or> cnt + 1 + int (length added) - 1 > SYNC_ZIP_COUNT k"
      using Cons.IH by blast
    have zb: "zip_bytes ((show_int cnt, b) # xs) = int (length b) + zip_bytes xs" for xs
      by (simp add: zip_bytes_def)
    show ?thesis
    proof (intro exI [of _ "(show_int cnt, b) # added"] conjI impI)
      show "zs' = zs @ (show_int cnt, b) # added" using a(1) by simp
      show "length ((show_int cnt, b) # added) \<le> length (f # files)" using a(2) by simp
      show "map snd ((show_int cnt, b) # added) =
          map (\<lambda>f. the (fs f)) (take (length ((show_int cnt, b) # added)) (f # files))"
        using a(3) b by simp
      show "sz + zip_bytes (butlast ((show_int cnt, b) # added)) \<le> SYNC_ZIP_SIZE k"
        using a(4) False by (cases "added = []") (simp_all add: zb)
      show "cnt + int (length ((show_int cnt, b) # added)) - 2 \<le> SYNC_ZIP_COUNT k"
        using a(5) False by (cases added rule: list.exhaust [case_names Nil Cons])
          (auto split: list.splits simp: Suc_le_eq)
      show "sz + zip_bytes ((show_int cnt, b) # added) > SYNC_ZIP_SIZE k \<or>
          cnt + int (length ((show_int cnt, b) # added)) - 1 > SYNC_ZIP_COUNT k"
        if "length ((show_int cnt, b) # added) < length (f # files)"
        using a(6) that by (auto simp: zb)
    qed
  qed
qed

text \<open>
  What the loop guarantees: the files are packed in the order asked, the bytes of all
  members but the last stay within \<^verbatim>\<open>SYNC_ZIP_SIZE\<close>, and when the loop stops early one of the
  two tests held. The count is tested on \<open>cnt\<close>, the number of files packed before the
  current one, so up to \<^verbatim>\<open>SYNC_ZIP_COUNT + 2\<close> files are packed.
\<close>

lemma downloadFiles_bounds:
  assumes "downloadFiles k m files = Inr (zs, flist)" and "0 \<le> SYNC_ZIP_SIZE k"
  shows "length zs \<le> length files \<and>
         map snd zs = map (\<lambda>f. the (media_dir m f)) (take (length zs) files) \<and>
         (zs \<noteq> [] \<longrightarrow> zip_bytes (butlast zs) \<le> SYNC_ZIP_SIZE k) \<and>
         (2 \<le> length zs \<longrightarrow> int (length zs) \<le> SYNC_ZIP_COUNT k + 2) \<and>
         (length zs < length files \<longrightarrow>
            zip_bytes zs > SYNC_ZIP_SIZE k \<or> int (length zs) > SYNC_ZIP_COUNT k + 1)"
  using downloadFiles_loop_bounds [OF assms(1) [unfolded downloadFiles_def] assms(2)]
  by auto

text \<open>
  Claim C2 at a concrete input: with \<^verbatim>\<open>SYNC_ZIP_COUNT = 25\<close> and thirty one-byte files asked
  for, \<^verbatim>\<open>downloadFiles\<close> packs 27 files, two more than the ceiling: the file that brings the
  count over the ceiling is the 26th, and the loop goes on to pack the 27th.
\<close>

theorem downloadFiles_count_overrun:
  "(case downloadFiles example_consts one_byte_dir (replicate 30 ''x.jpg'') of
      Inl e \<Rightarrow> 0
    | Inr (zs, flist) \<Rightarrow> length zs) = 27"
  by code_simp

subsection \<open>Dispatch\<close>



lemma family_by_name:
  "get_handler_for_operation ses m c = Inr (fam, ses') \<Longrightarrow>
     fam = (if m \<in> set SyncCollectionHandler_operations then CollectionFamily else MediaFamily)"
  by (auto simp: get_handler_for_operation_def Let_def split: if_splits)









subsection \<open>Request decoding\<close>






end
